theory Spec2Isabelle
  imports Main "HOL-Library.Sublist"
begin

section \<open>Python text primitives used by the assistant (app.py)\<close>

text \<open>
  Text is modelled as \<open>string\<close>, one \<open>char\<close> per code point, so for the code points below
  256 (ASCII and Latin-1). The character classes below are Python's \<open>str.isspace\<close>,
  \<open>str.lower\<close>, \<open>str.upper\<close> and the \<open>re\<close> classes \<open>\s\<close> and \<open>\w\<close> on these code points.
  Three code points have an upper-case form that is not a single code point below 256 (0xB5,
  0xDF, which becomes SS, and 0xFF): \<open>upper_char\<close> leaves them as they are.
\<close>

definition ascii_lowercase :: string where
  "ascii_lowercase = ''abcdefghijklmnopqrstuvwxyz''"

definition ascii_uppercase :: string where
  "ascii_uppercase = ''ABCDEFGHIJKLMNOPQRSTUVWXYZ''"

definition digits :: string where
  "digits = ''0123456789''"

text \<open>The Latin-1 capitals 0xC0--0xDE (without the sign 0xD7) and their small letters.\<close>

definition latin1_uppercase :: string where
  "latin1_uppercase =
     [CHR 0xC0, CHR 0xC1, CHR 0xC2, CHR 0xC3, CHR 0xC4, CHR 0xC5, CHR 0xC6, CHR 0xC7,
      CHR 0xC8, CHR 0xC9, CHR 0xCA, CHR 0xCB, CHR 0xCC, CHR 0xCD, CHR 0xCE, CHR 0xCF,
      CHR 0xD0, CHR 0xD1, CHR 0xD2, CHR 0xD3, CHR 0xD4, CHR 0xD5, CHR 0xD6, CHR 0xD8,
      CHR 0xD9, CHR 0xDA, CHR 0xDB, CHR 0xDC, CHR 0xDD, CHR 0xDE]"

definition latin1_lowercase :: string where
  "latin1_lowercase =
     [CHR 0xE0, CHR 0xE1, CHR 0xE2, CHR 0xE3, CHR 0xE4, CHR 0xE5, CHR 0xE6, CHR 0xE7,
      CHR 0xE8, CHR 0xE9, CHR 0xEA, CHR 0xEB, CHR 0xEC, CHR 0xED, CHR 0xEE, CHR 0xEF,
      CHR 0xF0, CHR 0xF1, CHR 0xF2, CHR 0xF3, CHR 0xF4, CHR 0xF5, CHR 0xF6, CHR 0xF8,
      CHR 0xF9, CHR 0xFA, CHR 0xFB, CHR 0xFC, CHR 0xFD, CHR 0xFE]"

text \<open>
  The other Latin-1 code points that \<open>str.isalnum\<close> accepts: the ordinal indicators, the
  micro sign, the superscript digits, the fractions, the sharp s and the y with diaeresis.
\<close>

definition latin1_other_word :: string where
  "latin1_other_word =
     [CHR 0xAA, CHR 0xB2, CHR 0xB3, CHR 0xB5, CHR 0xB9, CHR 0xBA, CHR 0xBC, CHR 0xBD,
      CHR 0xBE, CHR 0xDF, CHR 0xFF]"

text \<open>
  \<open>str.isspace\<close> and \<open>\s\<close>: TAB, LF, VT, FF, CR, FS, GS, RS, US, the space, NEL and the
  no-break space.
\<close>

definition isspace :: "char \<Rightarrow> bool" where
  "isspace c = (c \<in> set [CHR 0x09, CHR 0x0A, CHR 0x0B, CHR 0x0C, CHR 0x0D,
                          CHR 0x1C, CHR 0x1D, CHR 0x1E, CHR 0x1F, CHR 0x20,
                          CHR 0x85, CHR 0xA0])"

text \<open>The class \<open>\w\<close>: letters, digits and the underscore.\<close>

definition isword :: "char \<Rightarrow> bool" where
  "isword c = (c \<in> set (ascii_lowercase @ ascii_uppercase @ digits @ ''_'' @
                         latin1_lowercase @ latin1_uppercase @ latin1_other_word))"

definition lower_char :: "char \<Rightarrow> char" where
  "lower_char c =
     (case map_of (zip (ascii_uppercase @ latin1_uppercase)
                       (ascii_lowercase @ latin1_lowercase)) c of
        None \<Rightarrow> c | Some d \<Rightarrow> d)"

definition upper_char :: "char \<Rightarrow> char" where
  "upper_char c =
     (case map_of (zip (ascii_lowercase @ latin1_lowercase)
                       (ascii_uppercase @ latin1_uppercase)) c of
        None \<Rightarrow> c | Some d \<Rightarrow> d)"

definition lower :: "string \<Rightarrow> string" where
  "lower s = map lower_char s"

definition upper :: "string \<Rightarrow> string" where
  "upper s = map upper_char s"

text \<open>\<open>s.strip()\<close>: leading and trailing white space removed.\<close>

definition strip :: "string \<Rightarrow> string" where
  "strip s = rev (dropWhile isspace (rev (dropWhile isspace s)))"

text \<open>\<open>s.startswith(p)\<close>.\<close>

definition startswith :: "string \<Rightarrow> string \<Rightarrow> bool" where
  "startswith s p = (take (length p) s = p)"

text \<open>\<open>sep.join(xs)\<close>.\<close>

fun str_join :: "string \<Rightarrow> string list \<Rightarrow> string" where
  "str_join sep [] = []"
| "str_join sep [x] = x"
| "str_join sep (x # y # xs) = x @ sep @ str_join sep (y # xs)"

section \<open>Keyword extraction (retrieve\_context, lines 904--907)\<close>

text \<open>
  \<open>re.findall(r'\b\w+\b', s)\<close> returns the maximal runs of word characters of \<open>s\<close>, from
  left to right: \<open>\w+\<close> is greedy and a match can only start and end at a word boundary.
  The first argument is the run read so far.
\<close>

fun findall_words :: "string \<Rightarrow> string \<Rightarrow> string list" where
  "findall_words cur [] = (if cur = [] then [] else [cur])"
| "findall_words cur (c # cs) =
     (if isword c then findall_words (cur @ [c]) cs
      else (if cur = [] then [] else [cur]) @ findall_words [] cs)"

definition stop_words :: "string list" where
  "stop_words = [''what'', ''is'', ''are'', ''tell'', ''me'', ''about'', ''who'', ''which'',
                 ''show'', ''list'', ''of'', ''the'', ''a'', ''an'', ''find'']"

definition extract_keywords :: "string \<Rightarrow> string list" where
  "extract_keywords query =
     (let keywords = findall_words [] (lower query)
      in filter (\<lambda>word. word \<notin> set stop_words \<and> length word > 2) keywords)"

text \<open>Three word characters in a row somewhere in the text.\<close>

fun has_word_run3 :: "string \<Rightarrow> bool" where
  "has_word_run3 (a # b # c # rest) =
     ((isword a \<and> isword b \<and> isword c) \<or> has_word_run3 (b # c # rest))"
| "has_word_run3 _ = False"

text \<open>
  The specification's notion of the tokens of a text: its maximal runs of word characters,
  from left to right. A text without a word character has none. Otherwise the text is a
  stretch without word characters, then a non-empty run of word characters that ends at the
  end of the text or before a character that is not a word character, then the rest with its
  own runs.
\<close>

inductive word_runs :: "string \<Rightarrow> string list \<Rightarrow> bool" where
  no_word: "\<forall>c \<in> set sep. \<not> isword c \<Longrightarrow> word_runs sep []"
| next_run: "\<forall>c \<in> set sep. \<not> isword c \<Longrightarrow> r \<noteq> [] \<Longrightarrow> \<forall>c \<in> set r. isword c \<Longrightarrow>
             rest = [] \<or> \<not> isword (hd rest) \<Longrightarrow> word_runs rest runs \<Longrightarrow>
             word_runs (sep @ r @ rest) (r # runs)"

code_pred word_runs .

section \<open>The record store as seen by a background unit\<close>

text \<open>
  A unit opens its own handle (\<open>sqlite3.connect\<close>), runs one statement (\<open>execute\<close> and
  \<open>fetchall\<close>) and closes the handle. Each of the three may raise; an exception is either an
  \<open>sqlite3.Error\<close> or any other \<open>Exception\<close>, and carries its message.
\<close>

datatype exn = SqliteError string | OtherError string

fun exn_message :: "exn \<Rightarrow> string" where
  "exn_message (SqliteError m) = m"
| "exn_message (OtherError m) = m"

record 'r store =
  connect_raises :: "exn option"
  execute :: "string \<Rightarrow> string list \<Rightarrow> exn + 'r"
  close_raises :: "exn option"

datatype store_call = Connect | Execute string "string list" | Close

text \<open>The statements a trace of store calls has executed.\<close>

fun executed :: "store_call list \<Rightarrow> string list" where
  "executed [] = []"
| "executed (Execute sql params # cs) = sql # executed cs"
| "executed (c # cs) = executed cs"

section \<open>Context retrieval (retrieve\_context, lines 898--947)\<close>

text \<open>A row of \<open>SELECT name, products, category\<close>: the last two columns may be NULL.\<close>

type_synonym producer_row = "string \<times> string option \<times> string option"

definition or_na :: "string option \<Rightarrow> string" where
  "or_na v = (case v of None \<Rightarrow> ''N/A'' | Some s \<Rightarrow> (if s = [] then ''N/A'' else s))"

definition format_row :: "producer_row \<Rightarrow> string" where
  "format_row row = (case row of (name, products, category) \<Rightarrow>
     ''- Name: '' @ name @ '', Products: '' @ or_na products @ '', Category: '' @ or_na category)"

definition relevant_header :: string where
  "relevant_header = ''Relevant producer information from the database:''"

definition retrieval_error_line :: string where
  "retrieval_error_line =
     ''An error occurred while trying to retrieve information from the database.''"

definition no_match_line :: string where
  "no_match_line = ''No specific producer data found in the database for your query.''"

definition general_info_line :: string where
  "general_info_line = [CHR 0x0A] @
     ''General information about GlobalEnergyDB: This project aims to centralize data on global energy production, consumption, and reserves. It includes details on producers and their products (e.g., solar, wind, oil, gas).''"

definition like_clause :: string where
  "like_clause = ''name LIKE ? OR products LIKE ? OR category LIKE ?''"

definition like_param :: "string \<Rightarrow> string" where
  "like_param kw = ''%'' @ kw @ ''%''"

definition retrieval_sql :: "string list \<Rightarrow> string" where
  "retrieval_sql sql_parts =
     ''SELECT name, products, category FROM producers WHERE '' @
     str_join '' OR '' sql_parts @ '' LIMIT 5''"

definition sql_parts_of :: "string list \<Rightarrow> string list" where
  "sql_parts_of filtered_keywords = map (\<lambda>kw. like_clause) filtered_keywords"

definition params_of :: "string list \<Rightarrow> string list" where
  "params_of filtered_keywords =
     concat (map (\<lambda>kw. [like_param kw, like_param kw, like_param kw]) filtered_keywords)"

text \<open>
  The body of the \<open>try\<close> block with its \<open>except Exception\<close> handler: the store calls made and
  \<open>context_data\<close> as it stands after the handler. A failing \<open>execute\<close> leaves the handle
  unclosed, as the source does.
\<close>

definition lookup_context :: "producer_row list store \<Rightarrow> string list \<Rightarrow> store_call list \<times> string list" where
  "lookup_context st filtered_keywords =
     (case connect_raises st of
        Some e \<Rightarrow> ([Connect], [retrieval_error_line])
      | None \<Rightarrow>
          (let sql_parts = sql_parts_of filtered_keywords;
               params = params_of filtered_keywords
           in if sql_parts \<noteq> [] then
                (let query_sql = retrieval_sql sql_parts
                 in case execute st query_sql params of
                      Inl e \<Rightarrow> ([Connect, Execute query_sql params], [retrieval_error_line])
                    | Inr rows \<Rightarrow>
                        (let context_data =
                               (if rows \<noteq> [] then relevant_header # map format_row rows else [])
                         in case close_raises st of
                              Some e \<Rightarrow> ([Connect, Execute query_sql params, Close],
                                         context_data @ [retrieval_error_line])
                            | None \<Rightarrow> ([Connect, Execute query_sql params, Close],
                                       context_data)))
              else
                (case close_raises st of
                   Some e \<Rightarrow> ([Connect, Close], [retrieval_error_line])
                 | None \<Rightarrow> ([Connect, Close], []))))"

text \<open>\<open>context_data\<close> at the \<open>return\<close>, with the store calls made on the way.\<close>

definition retrieve_context_run :: "producer_row list store \<Rightarrow> string \<Rightarrow> store_call list \<times> string list" where
  "retrieve_context_run st query =
     (let filtered_keywords = extract_keywords query;
          (calls, context_data) = lookup_context st filtered_keywords;
          context_data = (if context_data = [] then context_data @ [no_match_line]
                          else context_data)
      in (calls, context_data @ [general_info_line]))"

definition context_lines :: "producer_row list store \<Rightarrow> string \<Rightarrow> string list" where
  "context_lines st query = snd (retrieve_context_run st query)"

definition retrieve_context :: "producer_row list store \<Rightarrow> string \<Rightarrow> string" where
  "retrieve_context st query = str_join [CHR 0x0A] (context_lines st query)"

section \<open>The chat unit (gemini\_chat\_response and process\_chat\_response)\<close>

text \<open>
  The language model is a capability \<open>prompt \<mapsto> text\<close> that may raise;
  \<open>get_gemini_model()\<close> returns \<open>None\<close> when it is not configured.
\<close>

type_synonym llm = "string \<Rightarrow> exn + string"

definition chat_prompt :: "string \<Rightarrow> string \<Rightarrow> string" where
  "chat_prompt user_query context =
     ''You are a helpful assistant providing information about global energy data. '' @
     ''Answer the following question concisely based ONLY on the provided context about producers. '' @
     ''If the answer is not available in the context, respond with: '' @
     [CHR 0x27] @ ''I don't have that specific information in my database. You might find it by searching online. [WEB_SEARCH_SUGGESTION: '' @
     user_query @ '' global energy]'' @ [CHR 0x27] @ '' '' @
     ''Otherwise, provide the answer directly from the context. '' @
     [CHR 0x0A, CHR 0x0A] @ ''Context:'' @ [CHR 0x0A] @ context @
     [CHR 0x0A, CHR 0x0A] @ ''Question: '' @ user_query"

definition gemini_chat_response :: "llm option \<Rightarrow> string \<Rightarrow> string \<Rightarrow> string" where
  "gemini_chat_response model user_query context =
     (case model of
        None \<Rightarrow> ''Chatbot is currently unavailable: Gemini AI not configured.''
      | Some generate \<Rightarrow>
          (case generate (chat_prompt user_query context) of
             Inr text \<Rightarrow> text
           | Inl e \<Rightarrow> ''I'm sorry, I encountered an error while processing your request. Please try again.''))"

subsection \<open>The marker pattern\<close>

text \<open>
  \<open>re.search(r'\[WEB_SEARCH_SUGGESTION:\s*(.*?)\s*\]', response_text)\<close>, as the backtracking
  matcher runs it. A greedy \<open>\s*\<close> first takes a white-space character and matches the rest
  after it, and gives the character back when that fails; the lazy \<open>.*?\<close> first tries the
  rest of the pattern where it stands and only then takes one more character, which must not be
  a line feed. The search tries every start position from the left.
\<close>

definition marker_open :: string where
  "marker_open = ''[WEB_SEARCH_SUGGESTION:''"

text \<open>\<open>\]\<close>: the text matched, if any.\<close>

fun close_bracket :: "string \<Rightarrow> string option" where
  "close_bracket [] = None"
| "close_bracket (c # cs) = (if c = CHR '']'' then Some [c] else None)"

text \<open>\<open>\s*\]\<close>: the text matched.\<close>

fun ws_close :: "string \<Rightarrow> string option" where
  "ws_close [] = close_bracket []"
| "ws_close (c # cs) =
     (if isspace c then
        (case ws_close cs of Some m \<Rightarrow> Some (c # m) | None \<Rightarrow> close_bracket (c # cs))
      else close_bracket (c # cs))"

text \<open>\<open>(.*?)\s*\]\<close>: group 1 and the text matched after it.\<close>

fun lazy_group :: "string \<Rightarrow> (string \<times> string) option" where
  "lazy_group [] = (case ws_close [] of Some m \<Rightarrow> Some ([], m) | None \<Rightarrow> None)"
| "lazy_group (c # cs) =
     (case ws_close (c # cs) of
        Some m \<Rightarrow> Some ([], m)
      | None \<Rightarrow>
          (if c = CHR 0x0A then None
           else (case lazy_group cs of Some (g, m) \<Rightarrow> Some (c # g, m) | None \<Rightarrow> None)))"

text \<open>\<open>\s*(.*?)\s*\]\<close>: the white space taken, group 1 and the text matched after it.\<close>

definition group_here :: "string \<Rightarrow> (string \<times> string \<times> string) option" where
  "group_here s = (case lazy_group s of Some (g, m) \<Rightarrow> Some ([], g, m) | None \<Rightarrow> None)"

fun ws_group :: "string \<Rightarrow> (string \<times> string \<times> string) option" where
  "ws_group [] = group_here []"
| "ws_group (c # cs) =
     (if isspace c then
        (case ws_group cs of Some (w, g, m) \<Rightarrow> Some (c # w, g, m) | None \<Rightarrow> group_here (c # cs))
      else group_here (c # cs))"

text \<open>The whole pattern at the start of \<open>s\<close>: group 0 and group 1.\<close>

definition match_at :: "string \<Rightarrow> (string \<times> string) option" where
  "match_at s =
     (if startswith s marker_open then
        (case ws_group (drop (length marker_open) s) of
           Some (w, g, m) \<Rightarrow> Some (marker_open @ w @ g @ m, g)
         | None \<Rightarrow> None)
      else None)"

fun re_search :: "string \<Rightarrow> (string \<times> string) option" where
  "re_search [] = match_at []"
| "re_search (c # cs) =
     (case match_at (c # cs) of Some r \<Rightarrow> Some r | None \<Rightarrow> re_search cs)"

subsection \<open>\<open>str.replace\<close> and \<open>urllib.parse.quote\<close>\<close>

text \<open>
  \<open>s.replace(old, new)\<close> replaces every occurrence of \<open>old\<close>, scanning from the left and
  continuing after each occurrence; with an empty \<open>old\<close> Python puts \<open>new\<close> before every
  character and at the end.
\<close>

function str_replace :: "string \<Rightarrow> string \<Rightarrow> string \<Rightarrow> string" where
  "str_replace old new s =
     (if old = [] then new @ concat (map (\<lambda>c. c # new) s)
      else if s = [] then []
      else if startswith s old then new @ str_replace old new (drop (length old) s)
      else hd s # str_replace old new (tl s))"
  by pat_completeness auto
termination
  by (relation "measure (\<lambda>(old, new, s). length s)") auto

declare str_replace.simps [simp del]

text \<open>
  \<open>quote(s)\<close> with the default \<open>safe='/'\<close>: the ASCII letters, the digits and \<open>_.-~/\<close>
  stay, every other character becomes \<open>%XX\<close> for each byte of its UTF-8 encoding: one byte
  below 128, two bytes from 128 to 255.
\<close>

definition quote_safe :: "char \<Rightarrow> bool" where
  "quote_safe c = (c \<in> set (ascii_lowercase @ ascii_uppercase @ digits @ ''_.-~/''))"

definition hex_digit :: "nat \<Rightarrow> char" where
  "hex_digit n = ''0123456789ABCDEF'' ! (n mod 16)"

definition percent_byte :: "nat \<Rightarrow> string" where
  "percent_byte b = [CHR ''%'', hex_digit (b div 16), hex_digit b]"

definition quote_char :: "char \<Rightarrow> string" where
  "quote_char c =
     (let n = (of_char c :: nat)
      in if quote_safe c then [c]
         else if n < 128 then percent_byte n
         else percent_byte (192 + n div 64) @ percent_byte (128 + n mod 64))"

definition quote :: "string \<Rightarrow> string" where
  "quote s = concat (map quote_char s)"

subsection \<open>Parsing the reply (lines 967--980)\<close>

text \<open>
  The two ways the reply is shown: as it is, or cleaned and with a search link. The second
  carries the cleaned text and the suggested query.
\<close>

datatype reply = Grounded string | FallbackSuggested string string

definition canned_sentence :: "string \<Rightarrow> string" where
  "canned_sentence suggested_query =
     ''I couldn't find a direct answer, but I've opened a web search for '' @ [CHR 0x27] @
     suggested_query @ [CHR 0x27] @ '' for you.''"

definition google_url :: "string \<Rightarrow> string" where
  "google_url suggested_query = ''https://www.google.com/search?q='' @ quote suggested_query"

definition parse_reply :: "string \<Rightarrow> reply" where
  "parse_reply response_text =
     (case re_search response_text of
        Some (group0, group1) \<Rightarrow>
          (let suggested_query = strip group1;
               clean_response_text = strip (str_replace group0 [] response_text);
               clean_response_text =
                 (if clean_response_text = [] then canned_sentence suggested_query
                  else clean_response_text)
           in FallbackSuggested clean_response_text suggested_query)
      | None \<Rightarrow> Grounded response_text)"

subsection \<open>The unit and its effects\<close>

text \<open>
  What the unit does to the chat window and the browser, in order: \<open>display_message\<close> with
  its sender, message and link, \<open>webbrowser.open_new_tab\<close>, and the two steps of the
  \<open>finally\<close> block. \<open>open_new_tab\<close> may raise.
\<close>

datatype chat_event =
    Display string string "string option"
  | OpenNewTab string
  | HideLoading
  | EnableSend

definition show_reply :: "exn option \<Rightarrow> reply \<Rightarrow> chat_event list \<times> exn option" where
  "show_reply browser_raises r =
     (case r of
        FallbackSuggested clean_response_text suggested_query \<Rightarrow>
          ([Display ''Bot'' clean_response_text (Some (google_url suggested_query)),
            OpenNewTab (google_url suggested_query)], browser_raises)
      | Grounded response_text \<Rightarrow> ([Display ''Bot'' response_text None], None))"

definition process_chat_response ::
    "producer_row list store \<Rightarrow> llm option \<Rightarrow> exn option \<Rightarrow> string \<Rightarrow> chat_event list" where
  "process_chat_response st model browser_raises query =
     (let context = retrieve_context st query;
          response_text = gemini_chat_response model query context;
          (events, raised) = show_reply browser_raises (parse_reply response_text);
          handler = (case raised of
                       None \<Rightarrow> []
                     | Some e \<Rightarrow> [Display ''Bot'' (''An error occurred: '' @ exn_message e) None])
      in events @ handler @ [HideLoading, EnableSend])"

text \<open>The destinations the unit opens.\<close>

fun opened :: "chat_event list \<Rightarrow> string list" where
  "opened [] = []"
| "opened (OpenNewTab url # es) = url # opened es"
| "opened (e # es) = opened es"

section \<open>The structured-query unit (run\_query\_in\_thread, lines 765--838)\<close>

definition producers_description :: string where
  "producers_description =
     ''Stores information about global energy producers including their name, contact details, address, products they offer, and their energy category (e.g., Solar, Wind, Hydro, Biofuel, Geothermal, Nuclear, Fossil Fuel).''"

definition sql_prompt :: "string \<Rightarrow> string" where
  "sql_prompt user_query =
     ''Given the SQLite database schema:'' @ [CHR 0x0A, CHR 0x0A] @
     ''CREATE TABLE producers ('' @ [CHR 0x0A] @
     ''    id INTEGER PRIMARY KEY AUTOINCREMENT,'' @ [CHR 0x0A] @
     ''    name TEXT NOT NULL UNIQUE,'' @ [CHR 0x0A] @
     ''    contact TEXT,'' @ [CHR 0x0A] @
     ''    address TEXT,'' @ [CHR 0x0A] @
     ''    products TEXT,'' @ [CHR 0x0A] @
     ''    category TEXT'' @ [CHR 0x0A] @
     '');'' @ [CHR 0x0A, CHR 0x0A] @
     ''Table description: '' @ producers_description @ [CHR 0x0A, CHR 0x0A] @
     ''Convert the following natural language query into a valid SQLite SQL SELECT statement. '' @
     ''Only provide the SQL query, nothing else. Do not add any backticks or extra formatting. '' @
     ''If the query cannot be translated to a SELECT statement, respond with '' @
     [CHR 0x27] @ ''INVALID_QUERY'' @ [CHR 0x27] @ ''.'' @ [CHR 0x0A, CHR 0x0A] @
     ''Natural language query: '' @ [CHR 0x27] @ user_query @ [CHR 0x27] @
     [CHR 0x0A, CHR 0x0A] @ ''SQL:''"

subsection \<open>The allow-list check (lines 787--799)\<close>

definition invalid_marker :: string where
  "invalid_marker = ''INVALID_QUERY''"

definition generated_sql_of :: "string \<Rightarrow> string" where
  "generated_sql_of sql_query_raw =
     (if startswith (upper sql_query_raw) ''SELECT'' then sql_query_raw else invalid_marker)"

text \<open>
  The validation state of a candidate: \<open>Rejected\<close> when the unit takes the branch
  \<open>generated_sql == "INVALID_QUERY"\<close>, which reports and returns, \<open>Valid\<close> when it goes on to
  the store.
\<close>

datatype validation_state = Valid | Rejected

definition validation_state_of :: "string \<Rightarrow> validation_state" where
  "validation_state_of sql_query_raw =
     (if generated_sql_of sql_query_raw = invalid_marker then Rejected else Valid)"

text \<open>
  The rule in the specification's words: the text begins with the letters of the keyword, each
  in either case.
\<close>

definition same_letter :: "char \<Rightarrow> char \<Rightarrow> bool" where
  "same_letter a b =
     (a = b \<or> (a, b) \<in> set (zip ascii_lowercase ascii_uppercase)
            \<or> (b, a) \<in> set (zip ascii_lowercase ascii_uppercase))"

definition ci_begins_with :: "string \<Rightarrow> string \<Rightarrow> bool" where
  "ci_begins_with s keyword =
     (length keyword \<le> length s \<and> list_all2 same_letter (take (length keyword) s) keyword)"

subsection \<open>The unit, its local variables and the callbacks it schedules\<close>

text \<open>
  A result table: the column names of \<open>cursor.description\<close> and the rows of \<open>fetchall\<close>, each
  cell as \<open>str\<close> renders it.
\<close>

type_synonym table = "string list \<times> string list list"

text \<open>
  The unit hands its result to the interactive context with \<open>root.after(0, lambda: ...)\<close>.
  Each lambda is a closure over the unit's local variables and reads them when the interactive
  context runs it, after \<open>root.after\<close> has returned to the unit. So a scheduled callback is
  the name of its lambda, and the unit returns its local variables with it: an unbound variable
  is \<open>None\<close>. An \<open>except ... as name\<close> clause binds \<open>name\<close> on entry and unbinds it when the
  clause ends.
\<close>

datatype callback = ShowRejected | ShowResults | ShowDatabaseError | ShowExecutionError

record frame =
  var_generated_sql :: "string option"
  var_columns :: "string list option"
  var_rows :: "string list list option"
  var_se :: "exn option"
  var_e :: "exn option"

definition empty_frame :: frame where
  "empty_frame = \<lparr>var_generated_sql = None, var_columns = None, var_rows = None,
                   var_se = None, var_e = None\<rparr>"

text \<open>The two \<open>except\<close> clauses: \<open>sqlite3.Error as se\<close> first, then \<open>Exception as e\<close>.\<close>

definition handle_exn :: "exn \<Rightarrow> frame \<Rightarrow> callback list \<times> frame" where
  "handle_exn ex fr =
     (case ex of
        SqliteError m \<Rightarrow>
          (let fr = fr\<lparr>var_se := Some ex\<rparr>;
               scheduled = [ShowDatabaseError];
               fr = fr\<lparr>var_se := None\<rparr>
           in (scheduled, fr))
      | OtherError m \<Rightarrow>
          (let fr = fr\<lparr>var_e := Some ex\<rparr>;
               scheduled = [ShowExecutionError];
               fr = fr\<lparr>var_e := None\<rparr>
           in (scheduled, fr)))"

definition run_query_in_thread ::
    "llm \<Rightarrow> table store \<Rightarrow> string \<Rightarrow> store_call list \<times> callback list \<times> frame" where
  "run_query_in_thread model st user_query =
     (case model (sql_prompt user_query) of
        Inl ex \<Rightarrow> (case handle_exn ex empty_frame of (scheduled, fr) \<Rightarrow> ([], scheduled, fr))
      | Inr response_text \<Rightarrow>
          (let sql_query_raw = strip response_text;
               generated_sql = generated_sql_of sql_query_raw;
               fr = empty_frame\<lparr>var_generated_sql := Some generated_sql\<rparr>
           in if generated_sql = invalid_marker then ([], [ShowRejected], fr)
              else
                (case connect_raises st of
                   Some ex \<Rightarrow>
                     (case handle_exn ex fr of (scheduled, fr) \<Rightarrow> ([Connect], scheduled, fr))
                 | None \<Rightarrow>
                     (case execute st generated_sql [] of
                        Inl ex \<Rightarrow>
                          (case handle_exn ex fr of (scheduled, fr) \<Rightarrow>
                             ([Connect, Execute generated_sql []], scheduled, fr))
                      | Inr (columns, rows) \<Rightarrow>
                          (let fr = fr\<lparr>var_rows := Some rows, var_columns := Some columns\<rparr>
                           in case close_raises st of
                                Some ex \<Rightarrow>
                                  (case handle_exn ex fr of (scheduled, fr) \<Rightarrow>
                                     ([Connect, Execute generated_sql [], Close], scheduled, fr))
                              | None \<Rightarrow>
                                  ([Connect, Execute generated_sql [], Close],
                                   [ShowResults], fr))))))"

subsection \<open>The callbacks in the interactive context\<close>

text \<open>
  What a callback does to the result widget. The lambda's tuple is evaluated from the left, so
  the widget is opened for writing and emptied before the message is built; reading an unbound
  variable there raises \<open>NameError\<close> and ends the callback. The result is the widget
  operations done and the name of the unbound variable, if any.
\<close>

datatype widget_op = ConfigNormal | DeleteAll | Insert string | ConfigDisabled

definition rejected_message :: string where
  "rejected_message =
     ''AI could not generate a valid SQL SELECT query from your input or it's not a SELECT query.''
     @ [CHR 0x0A]"

definition dashes :: string where
  "dashes = replicate 50 (CHR ''-'') @ [CHR 0x0A]"

definition run_callback :: "frame \<Rightarrow> callback \<Rightarrow> widget_op list \<times> string option" where
  "run_callback fr cb =
     (case cb of
        ShowRejected \<Rightarrow>
          ([ConfigNormal, DeleteAll, Insert rejected_message, ConfigDisabled], None)
      | ShowResults \<Rightarrow>
          (case var_rows fr of
             None \<Rightarrow> ([], Some ''rows'')
           | Some rows \<Rightarrow>
               if rows \<noteq> [] then
                 (case var_columns fr of
                    None \<Rightarrow>
                      ([ConfigNormal, DeleteAll, Insert (''Query Results:'' @ [CHR 0x0A]),
                        Insert dashes], Some ''columns'')
                  | Some columns \<Rightarrow>
                      ([ConfigNormal, DeleteAll, Insert (''Query Results:'' @ [CHR 0x0A]),
                        Insert dashes, Insert (str_join [CHR 0x09] columns @ [CHR 0x0A]),
                        Insert dashes]
                       @ map (\<lambda>row. Insert (str_join [CHR 0x09] row @ [CHR 0x0A])) rows
                       @ [ConfigDisabled], None))
               else
                 ([ConfigNormal, DeleteAll,
                   Insert (''No results found for your query.'' @ [CHR 0x0A]), ConfigDisabled],
                  None))
      | ShowDatabaseError \<Rightarrow>
          (case var_se fr of
             None \<Rightarrow> ([ConfigNormal, DeleteAll], Some ''se'')
           | Some ex \<Rightarrow>
               (case var_generated_sql fr of
                  None \<Rightarrow> ([ConfigNormal, DeleteAll], Some ''generated_sql'')
                | Some generated_sql \<Rightarrow>
                    ([ConfigNormal, DeleteAll,
                      Insert (''Database Error executing SQL: '' @ exn_message ex @ [CHR 0x0A] @
                              ''Generated SQL: '' @ generated_sql @ [CHR 0x0A]),
                      ConfigDisabled], None)))
      | ShowExecutionError \<Rightarrow>
          (case var_e fr of
             None \<Rightarrow> ([ConfigNormal, DeleteAll], Some ''e'')
           | Some ex \<Rightarrow>
               ([ConfigNormal, DeleteAll,
                 Insert (''AI/Execution Error: '' @ exn_message ex @ [CHR 0x0A]),
                 ConfigDisabled], None)))"

text \<open>The text the widget shows after a sequence of operations.\<close>

fun widget_text :: "string \<Rightarrow> widget_op list \<Rightarrow> string" where
  "widget_text shown [] = shown"
| "widget_text shown (DeleteAll # ops) = widget_text [] ops"
| "widget_text shown (Insert s # ops) = widget_text (shown @ s) ops"
| "widget_text shown (ConfigNormal # ops) = widget_text shown ops"
| "widget_text shown (ConfigDisabled # ops) = widget_text shown ops"

text \<open>The unit followed by the interactive context running what the unit scheduled.\<close>

definition query_unit_delivery ::
    "llm \<Rightarrow> table store \<Rightarrow> string \<Rightarrow> (widget_op list \<times> string option) list" where
  "query_unit_delivery model st user_query =
     (case run_query_in_thread model st user_query of
        (calls, scheduled, fr) \<Rightarrow> map (run_callback fr) scheduled)"

section \<open>Example stores and models\<close>

definition unopenable_store :: "producer_row list store" where
  "unopenable_store =
     \<lparr>connect_raises = Some (SqliteError ''unable to open database file''),
      execute = (\<lambda>sql params. Inr []), close_raises = None\<rparr>"

definition locked_store :: "producer_row list store" where
  "locked_store =
     \<lparr>connect_raises = None,
      execute = (\<lambda>sql params. Inl (SqliteError ''database is locked'')),
      close_raises = None\<rparr>"

definition acme_store :: "producer_row list store" where
  "acme_store =
     \<lparr>connect_raises = None,
      execute = (\<lambda>sql params. Inr [(''Acme Wind'', Some ''wind turbines'', Some ''Wind'')]),
      close_raises = None\<rparr>"

definition fallback_model :: llm where
  "fallback_model =
     (\<lambda>prompt. Inr ''I don't have that. [WEB_SEARCH_SUGGESTION: cat energy global energy]'')"

definition producers_table_store :: "table store" where
  "producers_table_store =
     \<lparr>connect_raises = None,
      execute = (\<lambda>sql params. Inr ([''name'', ''category''], [[''Acme Wind'', ''Wind'']])),
      close_raises = None\<rparr>"

definition locked_table_store :: "table store" where
  "locked_table_store =
     \<lparr>connect_raises = None,
      execute = (\<lambda>sql params. Inl (SqliteError ''database is locked'')),
      close_raises = None\<rparr>"

definition select_model :: llm where
  "select_model = (\<lambda>prompt. Inr '' select name, category from producers '')"

definition drop_model :: llm where
  "drop_model = (\<lambda>prompt. Inr ''DROP TABLE producers'')"


definition quota_model :: llm where
  "quota_model = (\<lambda>prompt. Inl (OtherError ''quota exceeded''))"

section \<open>Keyword extraction: properties\<close>

lemma isword_lower_char: "isword (lower_char c) = isword c"
  unfolding isword_def lower_char_def ascii_lowercase_def ascii_uppercase_def digits_def
    latin1_lowercase_def latin1_uppercase_def latin1_other_word_def
  by (simp split: option.splits)

lemma lower_char_idem: "lower_char (lower_char c) = lower_char c"
  unfolding lower_char_def ascii_lowercase_def ascii_uppercase_def
    latin1_lowercase_def latin1_uppercase_def
  by simp

lemma findall_words_tokens:
  "\<forall>c \<in> set cur. isword c \<Longrightarrow> t \<in> set (findall_words cur s) \<Longrightarrow>
     (\<forall>c \<in> set t. isword c) \<and> sublist t (cur @ s)"
proof (induction s arbitrary: cur)
  case Nil
  then show ?case by (auto split: if_splits)
next
  case (Cons c cs)
  show ?case
  proof (cases "isword c")
    case True
    with Cons.prems have "t \<in> set (findall_words (cur @ [c]) cs)"
      "\<forall>c \<in> set (cur @ [c]). isword c" by auto
    from Cons.IH[OF this(2) this(1)] show ?thesis by simp
  next
    case False
    with Cons.prems have "t = cur \<or> t \<in> set (findall_words [] cs)"
      by (auto split: if_splits)
    then show ?thesis
    proof
      assume "t = cur"
      then show ?thesis using Cons.prems
        by (simp add: sublist_appendI[of cur "[]", simplified])
    next
      assume "t \<in> set (findall_words [] cs)"
      from Cons.IH[OF _ this] have "(\<forall>c \<in> set t. isword c) \<and> sublist t cs" by simp
      then show ?thesis
        by (metis sublist_Cons_right sublist_append_leftI sublist_order.order.trans
            sublist_order.order_refl)
    qed
  qed
qed

lemma has_word_run3_Cons: "has_word_run3 xs \<Longrightarrow> has_word_run3 (p # xs)"
  by (cases xs rule: has_word_run3.cases) auto

lemma has_word_run3_append: "has_word_run3 xs \<Longrightarrow> has_word_run3 (ps @ xs)"
  by (induction ps) (auto intro: has_word_run3_Cons)

lemma has_word_run3_sublist:
  assumes "sublist t u" "2 < length t" "\<forall>c \<in> set t. isword c"
  shows "has_word_run3 u"
proof -
  from assms(1) obtain ps ss where u: "u = ps @ t @ ss" by (auto simp: sublist_def)
  from assms(2) obtain a b c rest where t: "t = a # b # c # rest"
    by (cases t rule: has_word_run3.cases) auto
  have "has_word_run3 (t @ ss)" using assms(3) by (simp add: t)
  then show ?thesis unfolding u by (rule has_word_run3_append)
qed

lemma has_word_run3_lower: "has_word_run3 (lower q) = has_word_run3 q"
  unfolding lower_def
  by (induction q rule: has_word_run3.induct) (auto simp: isword_lower_char)

lemma concat_findall_words: "concat (findall_words cur s) = cur @ filter isword s"
  by (induction s arbitrary: cur) auto

lemma subseq_concat_filter: "subseq (concat (filter P xs)) (concat xs)"
  by (induction xs) (auto intro: list_emb_append_mono)

text \<open>How \<open>findall_words\<close> passes a stretch without word characters, a run, and its end.\<close>

lemma findall_words_skip:
  "\<forall>c \<in> set sep. \<not> isword c \<Longrightarrow> findall_words [] (sep @ s) = findall_words [] s"
  by (induction sep) auto

lemma findall_words_run:
  "\<forall>c \<in> set r. isword c \<Longrightarrow> findall_words cur (r @ s) = findall_words (cur @ r) s"
  by (induction r arbitrary: cur) auto

lemma findall_words_end:
  "cur \<noteq> [] \<Longrightarrow> rest = [] \<or> \<not> isword (hd rest) \<Longrightarrow>
     findall_words cur rest = cur # findall_words [] rest"
  by (cases rest) auto

lemma findall_words_step:
  assumes "\<forall>c \<in> set sep. \<not> isword c" "r \<noteq> []" "\<forall>c \<in> set r. isword c"
    "rest = [] \<or> \<not> isword (hd rest)"
  shows "findall_words [] (sep @ r @ rest) = r # findall_words [] rest"
proof -
  have "findall_words [] (sep @ r @ rest) = findall_words [] (r @ rest)"
    using assms(1) by (rule findall_words_skip)
  also have "\<dots> = findall_words ([] @ r) rest" using assms(3) by (rule findall_words_run)
  also have "\<dots> = r # findall_words [] rest" using assms(2,4) by (simp add: findall_words_end)
  finally show ?thesis .
qed

text \<open>The runs of a text are unique, and \<open>findall_words\<close> returns them.\<close>

lemma word_runs_findall: "word_runs s runs \<Longrightarrow> findall_words [] s = runs"
proof (induction rule: word_runs.induct)
  case (no_word sep)
  from findall_words_skip [OF this, of "[]"] show ?case by simp
next
  case (next_run sep r rest runs)
  from findall_words_step [OF next_run(1,2,3,4)] next_run.IH show ?case by simp
qed

lemma findall_word_runs: "word_runs s (findall_words [] s)"
proof (induction s rule: length_induct)
  case (1 s)
  define sep where "sep = takeWhile (\<lambda>c. \<not> isword c) s"
  define after where "after = dropWhile (\<lambda>c. \<not> isword c) s"
  define r where "r = takeWhile isword after"
  define rest where "rest = dropWhile isword after"
  have s: "s = sep @ r @ rest" by (simp add: sep_def after_def r_def rest_def)
  have sep: "\<forall>c \<in> set sep. \<not> isword c" by (auto simp: sep_def dest: set_takeWhileD)
  have r: "\<forall>c \<in> set r. isword c" by (auto simp: r_def dest: set_takeWhileD)
  show ?case
  proof (cases "after = []")
    case True
    then have "s = sep" by (simp add: s r_def rest_def)
    moreover from sep have "word_runs sep []" by (rule word_runs.no_word)
    moreover from findall_words_skip [OF sep, of "[]"] have "findall_words [] sep = []" by simp
    ultimately show ?thesis by simp
  next
    case False
    then have "isword (hd after)"
      unfolding after_def using hd_dropWhile [of "\<lambda>c. \<not> isword c" s] by simp
    with False have ne: "r \<noteq> []" by (cases after) (simp_all add: r_def)
    have end_run: "rest = [] \<or> \<not> isword (hd rest)"
      unfolding rest_def using hd_dropWhile [of isword after] by blast
    from ne have "length rest < length s" by (simp add: s)
    with 1 have "word_runs rest (findall_words [] rest)" by blast
    with sep ne r end_run have "word_runs (sep @ r @ rest) (r # findall_words [] rest)"
      by (rule word_runs.next_run)
    with findall_words_step [OF sep ne r end_run] show ?thesis by (simp add: s [symmetric])
  qed
qed

text \<open>
  C8, as the code has it. The extractor returns exactly the maximal runs of word characters
  (letters, digits and the underscore) of the lower-cased text that are longer than 2 and are
  not stop words, in their order of occurrence and with repetitions kept. So a keyword holds
  only word characters that \<open>str.lower\<close> leaves unchanged, and a text without three word
  characters in a row gives no keyword. It is a total function of the text.
\<close>

theorem extract_keywords_filtered_runs:
  "(\<exists>runs. word_runs (lower q) runs \<and>
      extract_keywords q = filter (\<lambda>word. word \<notin> set stop_words \<and> 2 < length word) runs)
   \<and> (\<forall>runs. word_runs (lower q) runs \<longrightarrow>
      extract_keywords q = filter (\<lambda>word. word \<notin> set stop_words \<and> 2 < length word) runs)
   \<and> (\<forall>t \<in> set (extract_keywords q).
       2 < length t \<and> t \<notin> set stop_words \<and>
       (\<forall>c \<in> set t. isword c \<and> lower_char c = c) \<and>
       sublist t (lower q))
   \<and> subseq (concat (extract_keywords q)) (lower q)
   \<and> (\<not> has_word_run3 q \<longrightarrow> extract_keywords q = [])"
proof -
  have filtered: "extract_keywords q =
      filter (\<lambda>word. word \<notin> set stop_words \<and> 2 < length word) (findall_words [] (lower q))"
    by (simp add: extract_keywords_def)
  have exact: "extract_keywords q =
      filter (\<lambda>word. word \<notin> set stop_words \<and> 2 < length word) runs"
    if "word_runs (lower q) runs" for runs
    using word_runs_findall [OF that] filtered by simp
  from exact [OF findall_word_runs] findall_word_runs
  have returned: "\<exists>runs. word_runs (lower q) runs \<and>
      extract_keywords q = filter (\<lambda>word. word \<notin> set stop_words \<and> 2 < length word) runs"
    by blast
  have tokens: "2 < length t \<and> t \<notin> set stop_words \<and>
       (\<forall>c \<in> set t. isword c \<and> lower_char c = c) \<and> sublist t (lower q)"
    if t: "t \<in> set (extract_keywords q)" for t
  proof -
    from t have in_words: "t \<in> set (findall_words [] (lower q))"
      and kept: "2 < length t" "t \<notin> set stop_words"
      by (auto simp: extract_keywords_def)
    from findall_words_tokens[OF _ in_words]
    have word: "\<forall>c \<in> set t. isword c" and sub: "sublist t (lower q)" by simp_all
    have "isword c \<and> lower_char c = c" if c: "c \<in> set t" for c
    proof -
      from c sub have "c \<in> set (lower q)" by (auto simp: sublist_def)
      then obtain d where d: "c = lower_char d" by (auto simp: lower_def)
      then have "lower_char c = c" by (simp add: lower_char_idem)
      with word c show ?thesis by blast
    qed
    with kept sub show ?thesis by blast
  qed
  have "subseq (concat (extract_keywords q)) (concat (findall_words [] (lower q)))"
    unfolding extract_keywords_def Let_def by (rule subseq_concat_filter)
  also have "subseq \<dots> (lower q)" by (simp add: concat_findall_words)
  finally have ordered: "subseq (concat (extract_keywords q)) (lower q)" .
  have degenerate: "extract_keywords q = []" if no: "\<not> has_word_run3 q"
  proof (rule ccontr)
    assume "extract_keywords q \<noteq> []"
    then obtain t where t: "t \<in> set (extract_keywords q)"
      by (cases "extract_keywords q") auto
    then have in_words: "t \<in> set (findall_words [] (lower q))" and len: "2 < length t"
      by (auto simp: extract_keywords_def)
    from findall_words_tokens[OF _ in_words]
    have "\<forall>c \<in> set t. isword c" "sublist t (lower q)" by simp_all
    from has_word_run3_sublist[OF this(2) len this(1)] have "has_word_run3 (lower q)" .
    with no show False by (simp add: has_word_run3_lower)
  qed
  from returned exact tokens ordered degenerate show ?thesis by blast
qed

theorem extract_keywords_filtered_runs_witness:
  "word_runs (lower ''Wind, the wind_2!'') [''wind'', ''the'', ''wind_2''] \<and>
   extract_keywords ''Wind, the wind_2!'' = [''wind'', ''wind_2''] \<and>
   2 < length ''wind_2'' \<and> ''wind_2'' \<notin> set stop_words \<and>
   \<not> has_word_run3 ''a, b! is it?'' \<and> extract_keywords ''a, b! is it?'' = []"
proof -
  have low: "lower ''Wind, the wind_2!'' = ''wind, the wind_2!''"
    by (simp add: lower_def lower_char_def ascii_lowercase_def ascii_uppercase_def
        latin1_lowercase_def latin1_uppercase_def)
  have "word_runs ''!'' []"
    by (rule word_runs.no_word)
      (simp add: isword_def ascii_lowercase_def ascii_uppercase_def digits_def
        latin1_lowercase_def latin1_uppercase_def latin1_other_word_def)
  then have "word_runs ('' '' @ ''wind_2'' @ ''!'') [''wind_2'']"
    by (rule word_runs.next_run [rotated 4])
      (simp_all add: isword_def ascii_lowercase_def ascii_uppercase_def digits_def
        latin1_lowercase_def latin1_uppercase_def latin1_other_word_def)
  then have "word_runs '' wind_2!'' [''wind_2'']" by simp
  then have "word_runs ('', '' @ ''the'' @ '' wind_2!'') [''the'', ''wind_2'']"
    by (rule word_runs.next_run [rotated 4])
      (simp_all add: isword_def ascii_lowercase_def ascii_uppercase_def digits_def
        latin1_lowercase_def latin1_uppercase_def latin1_other_word_def)
  then have "word_runs '', the wind_2!'' [''the'', ''wind_2'']" by simp
  then have "word_runs ('''' @ ''wind'' @ '', the wind_2!'') [''wind'', ''the'', ''wind_2'']"
    by (rule word_runs.next_run [rotated 4])
      (simp_all add: isword_def ascii_lowercase_def ascii_uppercase_def digits_def
        latin1_lowercase_def latin1_uppercase_def latin1_other_word_def)
  then have runs: "word_runs (lower ''Wind, the wind_2!'') [''wind'', ''the'', ''wind_2'']"
    by (simp add: low)
  with extract_keywords_filtered_runs [of "''Wind, the wind_2!''"]
  have "extract_keywords ''Wind, the wind_2!'' =
          filter (\<lambda>word. word \<notin> set stop_words \<and> 2 < length word)
                 [''wind'', ''the'', ''wind_2'']"
    by blast
  then have kept: "extract_keywords ''Wind, the wind_2!'' = [''wind'', ''wind_2'']"
    by (simp add: stop_words_def)
  then have "''wind_2'' \<in> set (extract_keywords ''Wind, the wind_2!'')" by simp
  with extract_keywords_filtered_runs [of "''Wind, the wind_2!''"]
  have long: "2 < length ''wind_2'' \<and> ''wind_2'' \<notin> set stop_words" by blast
  have none: "\<not> has_word_run3 ''a, b! is it?''"
    by (simp add: isword_def ascii_lowercase_def ascii_uppercase_def digits_def
        latin1_lowercase_def latin1_uppercase_def latin1_other_word_def)
  with extract_keywords_filtered_runs [of "''a, b! is it?''"]
  have "extract_keywords ''a, b! is it?'' = []" by blast
  with runs kept long none show ?thesis by blast
qed

text \<open>Capitals and small letters beyond ASCII are word characters too.\<close>

lemma extract_keywords_latin1:
  "extract_keywords [CHR 0xC9, CHR 0xE9, CHR 0xE9] = [[CHR 0xE9, CHR 0xE9, CHR 0xE9]]"
  by (simp add: extract_keywords_def lower_def lower_char_def isword_def stop_words_def
      ascii_lowercase_def ascii_uppercase_def digits_def
      latin1_lowercase_def latin1_uppercase_def latin1_other_word_def)

text \<open>
  The claim C8 as stated fails: a repeated word is returned twice, and a run of underscores
  is a keyword although it holds no letter and no digit.
\<close>

theorem extract_keywords_not_distinct:
  "\<not> distinct (extract_keywords ''wind wind'') \<and>
   extract_keywords ''solar_panel ___'' = [''solar_panel'', ''___'']"
  by (simp add: extract_keywords_def lower_def lower_char_def isword_def stop_words_def
      ascii_lowercase_def ascii_uppercase_def digits_def
      latin1_lowercase_def latin1_uppercase_def latin1_other_word_def)

section \<open>Context retrieval: properties\<close>

lemma str_join_last: "xs \<noteq> [] \<Longrightarrow> \<exists>pre. str_join sep xs = pre @ last xs"
  by (induction sep xs rule: str_join.induct) auto

lemma context_lines_shape:
  "\<exists>data. data \<noteq> [] \<and> context_lines st query = data @ [general_info_line]"
  unfolding context_lines_def retrieve_context_run_def
  by (simp add: Let_def split: prod.splits)

lemma extract_keywords_what_is_it: "extract_keywords ''what is it'' = []"
  by (simp add: extract_keywords_def lower_def lower_char_def isword_def stop_words_def
      ascii_lowercase_def ascii_uppercase_def digits_def
      latin1_lowercase_def latin1_uppercase_def latin1_other_word_def)

lemma extract_keywords_wind_turbines:
  "extract_keywords ''wind turbines'' = [''wind'', ''turbines'']"
  by (simp add: extract_keywords_def lower_def lower_char_def isword_def stop_words_def
      ascii_lowercase_def ascii_uppercase_def digits_def
      latin1_lowercase_def latin1_uppercase_def latin1_other_word_def)

text \<open>
  C10. Whatever the store does and whatever the question is, the last line of the context is
  the general description of GlobalEnergyDB, and the joined context text ends with it.
\<close>

theorem context_ends_with_general_info:
  "last (context_lines st query) = general_info_line \<and>
   (\<exists>pre. retrieve_context st query = pre @ general_info_line)"
proof -
  from context_lines_shape obtain data where
    d: "context_lines st query = data @ [general_info_line]" by blast
  then have l: "last (context_lines st query) = general_info_line"
    and ne: "context_lines st query \<noteq> []" by simp_all
  from str_join_last[OF ne, of "[CHR 0x0A]"] l show ?thesis
    by (simp add: retrieve_context_def)
qed

theorem context_ends_with_general_info_witness:
  "context_lines acme_store ''wind turbines'' =
     [relevant_header, ''- Name: Acme Wind, Products: wind turbines, Category: Wind'',
      general_info_line] \<and>
   last (context_lines locked_store ''wind turbines'') = general_info_line"
proof -
  have "context_lines acme_store ''wind turbines'' =
     [relevant_header, ''- Name: Acme Wind, Products: wind turbines, Category: Wind'',
      general_info_line]"
    by (simp add: context_lines_def retrieve_context_run_def lookup_context_def
        extract_keywords_wind_turbines acme_store_def sql_parts_of_def format_row_def or_na_def)
  with context_ends_with_general_info [of locked_store "''wind turbines''"]
  show ?thesis by blast
qed

text \<open>
  C4, as the code has it. The context always has at least one line and its text is never
  empty. When the question has no keyword, no statement is executed against the store; the
  handle is still opened and closed, and when both succeed the context is exactly the no-match
  line followed by the general description.
\<close>

theorem context_never_empty:
  "context_lines st query \<noteq> [] \<and> retrieve_context st query \<noteq> [] \<and>
   (extract_keywords query = [] \<longrightarrow>
      executed (fst (retrieve_context_run st query)) = [] \<and>
      (connect_raises st = None \<and> close_raises st = None \<longrightarrow>
         context_lines st query = [no_match_line, general_info_line]))"
proof -
  from context_lines_shape obtain data where
    d: "context_lines st query = data @ [general_info_line]" by blast
  then have ne: "context_lines st query \<noteq> []"
    and l: "last (context_lines st query) = general_info_line" by simp_all
  from str_join_last[OF ne, of "[CHR 0x0A]"] l obtain pre where
    "retrieve_context st query = pre @ general_info_line"
    by (auto simp: retrieve_context_def)
  then have ne2: "retrieve_context st query \<noteq> []" by (simp add: general_info_line_def)
  have "executed (fst (retrieve_context_run st query)) = [] \<and>
      (connect_raises st = None \<and> close_raises st = None \<longrightarrow>
         context_lines st query = [no_match_line, general_info_line])"
    if "extract_keywords query = []"
    using that
    by (simp add: context_lines_def retrieve_context_run_def lookup_context_def
        sql_parts_of_def split: option.splits)
  with ne ne2 show ?thesis by blast
qed

theorem context_never_empty_witness:
  "extract_keywords ''what is it'' = [] \<and>
   connect_raises acme_store = None \<and> close_raises acme_store = None \<and>
   executed (fst (retrieve_context_run acme_store ''what is it'')) = [] \<and>
   context_lines acme_store ''what is it'' = [no_match_line, general_info_line]"
proof -
  have ok: "connect_raises acme_store = None \<and> close_raises acme_store = None"
    by (simp add: acme_store_def)
  with context_never_empty [of acme_store "''what is it''"] extract_keywords_what_is_it
  show ?thesis by blast
qed

text \<open>
  The claim C4 as stated fails when the question has no keyword and the store cannot be
  opened: the context then holds the error line, not the no-match line.
\<close>

theorem no_keyword_context_on_connect_error:
  "extract_keywords ''what is it'' = [] \<and>
   context_lines unopenable_store ''what is it'' = [retrieval_error_line, general_info_line] \<and>
   context_lines unopenable_store ''what is it'' \<noteq> [no_match_line, general_info_line]"
  by (simp add: extract_keywords_what_is_it context_lines_def retrieve_context_run_def
      lookup_context_def unopenable_store_def retrieval_error_line_def no_match_line_def)

text \<open>
  C7, as the code has it. When opening the store or running the retrieval statement raises,
  the retriever still returns a context: the error line followed by the general description.
\<close>

theorem retrieval_error_absorbed:
  assumes "connect_raises st \<noteq> None \<or>
           (extract_keywords query \<noteq> [] \<and>
            isl (execute st (retrieval_sql (sql_parts_of (extract_keywords query)))
                            (params_of (extract_keywords query))))"
  shows "context_lines st query = [retrieval_error_line, general_info_line]"
  using assms
  by (auto simp add: context_lines_def retrieve_context_run_def lookup_context_def
      sql_parts_of_def Let_def isl_def split: option.splits sum.splits)

theorem retrieval_error_absorbed_witness:
  "connect_raises locked_store = None \<and> extract_keywords ''wind turbines'' \<noteq> [] \<and>
   isl (execute locked_store
          (retrieval_sql (sql_parts_of (extract_keywords ''wind turbines'')))
          (params_of (extract_keywords ''wind turbines''))) \<and>
   context_lines locked_store ''wind turbines'' = [retrieval_error_line, general_info_line] \<and>
   connect_raises unopenable_store \<noteq> None \<and>
   context_lines unopenable_store ''what is it'' = [retrieval_error_line, general_info_line]"
proof -
  have kw: "extract_keywords ''wind turbines'' \<noteq> []"
    by (simp add: extract_keywords_wind_turbines)
  have locked: "connect_raises locked_store = None"
    "isl (execute locked_store
          (retrieval_sql (sql_parts_of (extract_keywords ''wind turbines'')))
          (params_of (extract_keywords ''wind turbines'')))"
    by (simp_all add: locked_store_def)
  have closed: "connect_raises unopenable_store \<noteq> None" by (simp add: unopenable_store_def)
  from retrieval_error_absorbed [of locked_store "''wind turbines''"] kw locked
  have 1: "context_lines locked_store ''wind turbines'' =
             [retrieval_error_line, general_info_line]" by blast
  from retrieval_error_absorbed [of unopenable_store "''what is it''"] closed
  have 2: "context_lines unopenable_store ''what is it'' =
             [retrieval_error_line, general_info_line]" by blast
  from kw locked closed 1 2 show ?thesis by blast
qed

text \<open>
  The claim C7 as stated fails: the context of a failed lookup is not the error line alone.
\<close>

theorem retrieval_error_context_has_general_info:
  "context_lines locked_store ''wind turbines'' \<noteq> [retrieval_error_line]"
  by (simp add: context_lines_def retrieve_context_run_def lookup_context_def
      locked_store_def extract_keywords_wind_turbines sql_parts_of_def)

section \<open>The marker pattern: properties\<close>

lemma not_space_bracket: "\<not> isspace (CHR '']'')"
  by (simp add: isspace_def)

lemma ws_close_char:
  "ws_close s = (case dropWhile isspace s of
                   [] \<Rightarrow> None
                 | c # cs \<Rightarrow> if c = CHR '']'' then Some (takeWhile isspace s @ '']'') else None)"
proof (induction s)
  case Nil
  show ?case by simp
next
  case (Cons c cs)
  show ?case
  proof (cases "isspace c")
    case True
    then have "c \<noteq> CHR '']''" using not_space_bracket by auto
    with True Cons show ?thesis
      by (cases "dropWhile isspace cs") (simp_all del: dropWhile_eq_Nil_conv)
  next
    case False
    then show ?thesis by (simp add: not_space_bracket)
  qed
qed

lemma dropWhile_space_append:
  assumes "\<exists>x \<in> set q. \<not> isspace x"
  shows "\<exists>c cs. dropWhile isspace (q @ r) = c # cs \<and> c \<in> set q"
proof -
  from assms have "dropWhile isspace (q @ r) = dropWhile isspace q @ r"
    by (meson dropWhile_append1)
  moreover from assms have "dropWhile isspace q \<noteq> []" by (simp add: dropWhile_eq_Nil_conv)
  then obtain c cs where "dropWhile isspace q = c # cs" by (cases "dropWhile isspace q") auto
  moreover then have "c \<in> set q" by (metis list.set_intros(1) set_dropWhileD)
  ultimately show ?thesis by simp
qed

lemma ws_close_inside:
  assumes "CHR '']'' \<notin> set q" "q \<noteq> []" "\<not> isspace (last q)"
  shows "ws_close (q @ r) = None"
proof -
  from assms(2,3) have "\<exists>x \<in> set q. \<not> isspace x" using last_in_set by blast
  from dropWhile_space_append[OF this] obtain c cs where
    "dropWhile isspace (q @ r) = c # cs" "c \<in> set q" by blast
  with assms(1) show ?thesis by (auto simp: ws_close_char)
qed

lemma ws_close_tail:
  assumes "\<forall>c \<in> set ws. isspace c"
  shows "ws_close (ws @ CHR '']'' # post) = Some (ws @ '']'')"
proof -
  from assms have "dropWhile isspace (ws @ CHR '']'' # post) = CHR '']'' # post"
    by (simp add: not_space_bracket)
  moreover from assms have "takeWhile isspace (ws @ CHR '']'' # post) = ws"
    by (simp add: not_space_bracket)
  ultimately show ?thesis by (simp add: ws_close_char)
qed

lemma lazy_group_query:
  assumes "CHR '']'' \<notin> set q" "CHR 0x0A \<notin> set q" "q = [] \<or> \<not> isspace (last q)"
    "\<forall>c \<in> set ws. isspace c"
  shows "lazy_group (q @ ws @ CHR '']'' # post) = Some (q, ws @ '']'')"
  using assms(1-3)
proof (induction q)
  case Nil
  show ?case using ws_close_tail[OF assms(4), of post]
    by (cases "ws @ CHR '']'' # post") (simp_all)
next
  case (Cons c q)
  have "ws_close ((c # q) @ ws @ CHR '']'' # post) = None"
    using Cons.prems by (intro ws_close_inside) auto
  moreover have "lazy_group (q @ ws @ CHR '']'' # post) = Some (q, ws @ '']'')"
    using Cons by (auto split: if_splits)
  moreover have "c \<noteq> CHR 0x0A" using Cons.prems by auto
  ultimately show ?case by (simp del: ws_close.simps)
qed

lemma ws_group_empty:
  assumes "\<forall>c \<in> set ws. isspace c"
  shows "ws_group (ws @ CHR '']'' # post) = Some (ws, [], '']'')"
  using assms by (induction ws) (simp_all add: group_here_def not_space_bracket)

lemma ws_group_query:
  assumes "\<forall>c \<in> set ws1. isspace c" "q \<noteq> []" "\<not> isspace (hd q)"
    "lazy_group (q @ r) = Some (q, m)"
  shows "ws_group (ws1 @ q @ r) = Some (ws1, q, m)"
  using assms(1)
proof (induction ws1)
  case Nil
  from assms(2,3,4) show ?case by (cases q) (simp_all add: group_here_def)
next
  case (Cons c ws1)
  then show ?case by simp
qed

lemma strip_parts:
  "\<exists>w1 w2. b = w1 @ strip b @ w2 \<and> (\<forall>c \<in> set w1. isspace c) \<and> (\<forall>c \<in> set w2. isspace c) \<and>
           (strip b = [] \<or> (\<not> isspace (hd (strip b)) \<and> \<not> isspace (last (strip b))))"
proof -
  define d where "d = dropWhile isspace b"
  define w1 where "w1 = takeWhile isspace b"
  define w2 where "w2 = rev (takeWhile isspace (rev d))"
  have s: "strip b = rev (dropWhile isspace (rev d))" by (simp add: strip_def d_def)
  have b: "b = w1 @ d" by (simp add: w1_def d_def)
  have "d = rev (takeWhile isspace (rev d) @ dropWhile isspace (rev d))"
    by (simp only: takeWhile_dropWhile_id rev_rev_ident)
  also have "\<dots> = rev (dropWhile isspace (rev d)) @ rev (takeWhile isspace (rev d))"
    by (simp only: rev_append)
  finally have d: "d = strip b @ w2" by (simp only: s w2_def)
  have 1: "\<forall>c \<in> set w1. isspace c" by (auto simp: w1_def dest: set_takeWhileD)
  have 2: "\<forall>c \<in> set w2. isspace c" by (auto simp: w2_def dest: set_takeWhileD)
  have 3: "\<not> isspace (hd (strip b)) \<and> \<not> isspace (last (strip b))" if ne: "strip b \<noteq> []"
  proof -
    from ne have "dropWhile isspace (rev d) \<noteq> []" by (simp add: s)
    then have "\<not> isspace (hd (dropWhile isspace (rev d)))" by (rule hd_dropWhile)
    then have l: "\<not> isspace (last (strip b))" using ne by (simp add: s last_rev)
    from ne d have "d \<noteq> []" by auto
    then have "\<not> isspace (hd d)" unfolding d_def by (rule hd_dropWhile)
    moreover have "hd d = hd (strip b)" using d ne by (metis hd_append2)
    ultimately show ?thesis using l by simp
  qed
  from b d 1 2 3 show ?thesis by blast
qed

lemma ws_group_body:
  assumes "CHR '']'' \<notin> set body" "CHR 0x0A \<notin> set (strip body)"
  shows "\<exists>w g m. ws_group (body @ CHR '']'' # post) = Some (w, g, m) \<and>
                 w @ g @ m = body @ '']'' \<and> g = strip body"
proof -
  from strip_parts[of body] obtain w1 w2 where
    b: "body = w1 @ strip body @ w2" and w1: "\<forall>c \<in> set w1. isspace c" and w2: "\<forall>c \<in> set w2. isspace c"
    and ends: "strip body = [] \<or> (\<not> isspace (hd (strip body)) \<and> \<not> isspace (last (strip body)))"
    by blast
  define q where "q = strip body"
  have sq: "strip body = q" by (simp add: q_def)
  from b have bq: "body = w1 @ q @ w2" by (simp only: sq)
  from assms(1) have nb: "CHR '']'' \<notin> set q" by (subst (asm) bq) simp
  from assms(2) have nl: "CHR 0x0A \<notin> set q" by (simp add: sq)
  from ends have ends': "q = [] \<or> (\<not> isspace (hd q) \<and> \<not> isspace (last q))" by (simp only: sq)
  have "\<exists>w g m. ws_group ((w1 @ q @ w2) @ CHR '']'' # post) = Some (w, g, m) \<and>
                 w @ g @ m = (w1 @ q @ w2) @ '']'' \<and> g = q"
  proof (cases "q = []")
    case True
    from w1 w2 have "\<forall>c \<in> set (w1 @ w2). isspace c" by auto
    from ws_group_empty[OF this, of post] show ?thesis using True by simp
  next
    case False
    with ends' have e: "\<not> isspace (hd q)" "\<not> isspace (last q)" by simp_all
    have "lazy_group (q @ w2 @ CHR '']'' # post) = Some (q, w2 @ '']'')"
      using nb nl e w2 by (intro lazy_group_query) simp_all
    from ws_group_query[OF w1 False e(1) this] show ?thesis by simp
  qed
  then show ?thesis by (simp only: sq bq[symmetric])
qed

lemma match_at_marker:
  assumes "CHR '']'' \<notin> set body" "CHR 0x0A \<notin> set (strip body)"
  shows "match_at (marker_open @ body @ CHR '']'' # post) =
           Some (marker_open @ body @ '']'', strip body)"
proof -
  from ws_group_body[OF assms, of post] obtain w g m where
    "ws_group (body @ CHR '']'' # post) = Some (w, g, m)" "w @ g @ m = body @ '']''" "g = strip body"
    by blast
  then show ?thesis by (simp add: match_at_def startswith_def)
qed


lemma startswith_sublist: "startswith s p \<Longrightarrow> sublist p s"
proof -
  assume "startswith s p"
  then have "s = p @ drop (length p) s" unfolding startswith_def by (metis append_take_drop_id)
  then have "s = [] @ p @ drop (length p) s" by simp
  then show "sublist p s" unfolding sublist_def by blast
qed

lemma re_search_no_opening: "\<not> sublist marker_open response_text \<Longrightarrow> re_search response_text = None"
proof (induction response_text)
  case Nil
  then show ?case by (auto simp: match_at_def dest: startswith_sublist)
next
  case (Cons c cs)
  from Cons.prems have "\<not> startswith (c # cs) marker_open" by (auto dest: startswith_sublist)
  then have "match_at (c # cs) = None" by (simp add: match_at_def)
  moreover from Cons.prems have "\<not> sublist marker_open cs" by (auto simp: sublist_Cons_right)
  ultimately show ?case using Cons.IH by simp
qed

lemma marker_open_no_overlap:
  assumes "startswith (pre @ marker_open @ rest) marker_open" "pre \<noteq> []"
  shows "sublist marker_open pre"
proof (cases "length marker_open \<le> length pre")
  case True
  with assms(1) have "take (length marker_open) pre = marker_open" by (simp add: startswith_def)
  then have "startswith pre marker_open" by (simp add: startswith_def)
  then show ?thesis by (rule startswith_sublist)
next
  case False
  define k where "k = length pre"
  from False assms(2) have k: "0 < k" "k < length marker_open" by (simp_all add: k_def)
  from assms(1) have "take (length marker_open) (pre @ marker_open @ rest) = marker_open"
    by (simp only: startswith_def)
  then have "take (length marker_open) (pre @ marker_open @ rest) ! k = marker_open ! k"
    by (simp only:)
  with k have "(pre @ marker_open @ rest) ! k = marker_open ! k" by (simp only: nth_take)
  then have "(marker_open @ rest) ! 0 = marker_open ! k" by (simp add: k_def nth_append)
  then have "marker_open ! k = CHR ''[''" by (simp add: marker_open_def)
  moreover have "CHR ''['' \<notin> set (tl marker_open)" by (simp add: marker_open_def)
  moreover from k have less: "k - 1 < length (tl marker_open)" by simp
  moreover from nth_tl[OF less] k have "marker_open ! k = tl marker_open ! (k - 1)" by simp
  ultimately show ?thesis by (metis nth_mem)
qed

lemma re_search_first:
  assumes "\<not> sublist marker_open pre" "match_at (marker_open @ rest) = Some r"
  shows "re_search (pre @ marker_open @ rest) = Some r"
  using assms(1)
proof (induction pre)
  case Nil
  from assms(2) show ?case by (cases "marker_open @ rest") (simp_all add: marker_open_def)
next
  case (Cons c cs)
  from Cons.prems have "\<not> startswith ((c # cs) @ marker_open @ rest) marker_open"
    using marker_open_no_overlap by blast
  then have "match_at (c # cs @ marker_open @ rest) = None" by (simp add: match_at_def)
  moreover from Cons.prems have "\<not> sublist marker_open cs" by (auto simp: sublist_Cons_right)
  ultimately show ?case using Cons.IH by simp
qed

lemma parse_reply_marker:
  assumes "\<not> sublist marker_open pre" "CHR '']'' \<notin> set body" "CHR 0x0A \<notin> set (strip body)"
  shows "parse_reply (pre @ marker_open @ body @ '']'' @ post) =
           (let clean = strip (str_replace (marker_open @ body @ '']'') []
                                           (pre @ marker_open @ body @ '']'' @ post))
            in FallbackSuggested (if clean = [] then canned_sentence (strip body) else clean)
                                 (strip body))"
proof -
  have "match_at (marker_open @ body @ CHR '']'' # post) = Some (marker_open @ body @ '']'', strip body)"
    using assms(2,3) by (rule match_at_marker)
  from re_search_first[OF assms(1) this]
  have "re_search (pre @ marker_open @ body @ '']'' @ post) = Some (marker_open @ body @ '']'', strip body)"
    by simp
  moreover have "strip (strip body) = strip body"
  proof -
    from strip_parts[of body] have e: "strip body = [] \<or> (\<not> isspace (hd (strip body)) \<and> \<not> isspace (last (strip body)))" by blast
    show ?thesis
    proof (cases "strip body = []")
      case True
      have "strip [] = []" by (simp add: strip_def)
      then show ?thesis by (simp only: True)
    next
      case False
      with e have h: "\<not> isspace (hd (strip body))" and l: "\<not> isspace (last (strip body))" by simp_all
      from False h have 1: "dropWhile isspace (strip body) = strip body" by (cases "strip body") simp_all
      from False l have 2: "dropWhile isspace (rev (strip body)) = rev (strip body)"
        by (cases "rev (strip body)") (simp_all add: last_rev[symmetric] hd_rev)
      have "strip (strip body) = rev (dropWhile isspace (rev (dropWhile isspace (strip body))))"
        by (simp only: strip_def)
      then show ?thesis by (simp only: 1 2 rev_rev_ident)
    qed
  qed
  ultimately show ?thesis by (simp add: parse_reply_def Let_def)
qed

lemma parse_reply_no_opening: "\<not> sublist marker_open response_text \<Longrightarrow> parse_reply response_text = Grounded response_text"
  by (simp add: parse_reply_def re_search_no_opening)

lemma ws_close_no_bracket: "CHR '']'' \<notin> set s \<Longrightarrow> ws_close s = None"
  by (auto simp: ws_close_char split: list.splits dest: set_dropWhileD)
    (metis list.set_intros(1) set_dropWhileD)

lemma lazy_group_no_bracket: "CHR '']'' \<notin> set s \<Longrightarrow> lazy_group s = None"
  by (induction s) (simp_all add: ws_close_no_bracket del: ws_close.simps)

lemma ws_group_no_bracket: "CHR '']'' \<notin> set s \<Longrightarrow> ws_group s = None"
  by (induction s) (simp_all add: group_here_def lazy_group_no_bracket del: lazy_group.simps)

lemma match_at_no_bracket: "CHR '']'' \<notin> set s \<Longrightarrow> match_at s = None"
proof -
  assume "CHR '']'' \<notin> set s"
  then have "CHR '']'' \<notin> set (drop (length marker_open) s)" by (auto dest: in_set_dropD)
  then show ?thesis by (simp add: match_at_def ws_group_no_bracket)
qed

lemma re_search_no_bracket: "CHR '']'' \<notin> set s \<Longrightarrow> re_search s = None"
  by (induction s) (simp_all add: match_at_no_bracket)

lemma strip_all_space: "\<forall>c \<in> set ws. isspace c \<Longrightarrow> strip ws = []"
proof -
  assume "\<forall>c \<in> set ws. isspace c"
  then have "dropWhile isspace ws = []" by simp
  then show ?thesis by (simp only: strip_def rev.simps dropWhile.simps)
qed

lemma sublist_too_long: "length ys < length xs \<Longrightarrow> \<not> sublist xs ys"
  using sublist_length_le by fastforce

section \<open>The chat unit: properties\<close>

text \<open>
  C3, as the code has it. Take a reply in which the first marker opening is followed by a
  query \<open>q\<close> without a closing bracket in it and by the closing bracket, the trimmed \<open>q\<close>
  holding no line feed. The reply is shown as a fallback suggestion; the suggested query is
  \<open>q\<close> trimmed; the text shown is the reply with every occurrence of the marker removed and
  then trimmed, or the canned sentence when nothing is left. A reply without the marker
  opening is shown unchanged.
\<close>

theorem marker_parsed_as_fallback:
  "(\<not> sublist marker_open pre \<and> CHR '']'' \<notin> set q \<and> CHR 0x0A \<notin> set (strip q) \<longrightarrow>
      parse_reply (pre @ marker_open @ q @ '']'' @ post) =
        (let clean = strip (str_replace (marker_open @ q @ '']'') []
                                        (pre @ marker_open @ q @ '']'' @ post))
         in FallbackSuggested (if clean = [] then canned_sentence (strip q) else clean)
                              (strip q)))
   \<and> (\<not> sublist marker_open response_text \<longrightarrow>
        parse_reply response_text = Grounded response_text)"
  using parse_reply_marker [of pre q post] parse_reply_no_opening [of response_text]
  by blast

theorem marker_parsed_as_fallback_witness:
  "\<not> sublist marker_open ''answer. '' \<and> CHR '']'' \<notin> set '' solar panels'' \<and>
   CHR 0x0A \<notin> set (strip '' solar panels'') \<and>
   parse_reply ''answer. [WEB_SEARCH_SUGGESTION: solar panels]'' =
     FallbackSuggested ''answer.'' ''solar panels'' \<and>
   \<not> sublist marker_open ''Acme makes turbines.'' \<and>
   parse_reply ''Acme makes turbines.'' = Grounded ''Acme makes turbines.''"
proof -
  have first: "\<not> sublist marker_open ''answer. ''"
    by (rule sublist_too_long) (simp add: marker_open_def)
  have q: "CHR '']'' \<notin> set '' solar panels''" "strip '' solar panels'' = ''solar panels''"
    by (simp_all add: strip_def isspace_def)
  then have nl: "CHR 0x0A \<notin> set (strip '' solar panels'')" by simp
  have clean: "strip (str_replace (marker_open @ '' solar panels'' @ '']'') []
                 (''answer. '' @ marker_open @ '' solar panels'' @ '']'' @ [])) = ''answer.''"
    by (simp add: marker_open_def str_replace.simps startswith_def strip_def isspace_def)
  from marker_parsed_as_fallback [of "''answer. ''" "'' solar panels''" "[]"] first q(1) nl
  have "parse_reply (''answer. '' @ marker_open @ '' solar panels'' @ '']'' @ []) =
        (let clean = strip (str_replace (marker_open @ '' solar panels'' @ '']'') []
                       (''answer. '' @ marker_open @ '' solar panels'' @ '']'' @ []))
         in FallbackSuggested
              (if clean = [] then canned_sentence (strip '' solar panels'') else clean)
              (strip '' solar panels''))"
    by blast
  then have fb: "parse_reply ''answer. [WEB_SEARCH_SUGGESTION: solar panels]'' =
                   FallbackSuggested ''answer.'' ''solar panels''"
    unfolding clean q(2) Let_def by (simp add: marker_open_def)
  have none: "\<not> sublist marker_open ''Acme makes turbines.''"
    by (rule sublist_too_long) (simp add: marker_open_def)
  with marker_parsed_as_fallback [of _ _ _ "''Acme makes turbines.''"]
  have "parse_reply ''Acme makes turbines.'' = Grounded ''Acme makes turbines.''" by blast
  with first q(1) nl fb none show ?thesis by blast
qed

text \<open>
  The claim C3 as stated fails on the specification's own example: the text shown is not the
  reply with the marker removed, which ends with a space, but that text trimmed.
\<close>

theorem display_text_is_trimmed:
  "str_replace ''[WEB_SEARCH_SUGGESTION: solar panels]'' []
     ''answer. [WEB_SEARCH_SUGGESTION: solar panels]'' = ''answer. '' \<and>
   parse_reply ''answer. [WEB_SEARCH_SUGGESTION: solar panels]'' \<noteq>
     FallbackSuggested ''answer. '' ''solar panels''"
  by (simp add: parse_reply_def match_at_def startswith_def marker_open_def group_here_def
      isspace_def strip_def str_replace.simps)

text \<open>
  C9, as the code has it. A reply whose marker is never closed by a bracket is shown
  unchanged. A marker whose query is empty or white space is still a match: the reply is shown
  as a fallback suggestion with the empty query.
\<close>

theorem unclosed_marker_grounded_empty_marker_fallback:
  "(CHR '']'' \<notin> set response_text \<longrightarrow> parse_reply response_text = Grounded response_text)
   \<and> (\<not> sublist marker_open pre \<and> (\<forall>c \<in> set ws. isspace c) \<longrightarrow>
        parse_reply (pre @ marker_open @ ws @ '']'' @ post) =
          (let clean = strip (str_replace (marker_open @ ws @ '']'') []
                                          (pre @ marker_open @ ws @ '']'' @ post))
           in FallbackSuggested (if clean = [] then canned_sentence [] else clean) []))"
proof -
  have 1: "parse_reply response_text = Grounded response_text"
    if "CHR '']'' \<notin> set response_text"
    using that by (simp add: parse_reply_def re_search_no_bracket)
  have 2: "parse_reply (pre @ marker_open @ ws @ '']'' @ post) =
          (let clean = strip (str_replace (marker_open @ ws @ '']'') []
                                          (pre @ marker_open @ ws @ '']'' @ post))
           in FallbackSuggested (if clean = [] then canned_sentence [] else clean) [])"
    if first: "\<not> sublist marker_open pre" and ws: "\<forall>c \<in> set ws. isspace c"
  proof -
    from ws have s: "strip ws = []" by (rule strip_all_space)
    from ws have nb: "CHR '']'' \<notin> set ws" using not_space_bracket by blast
    from s have nl: "CHR 0x0A \<notin> set (strip ws)" by simp
    from parse_reply_marker [OF first nb nl, of post] show ?thesis by (simp only: s)
  qed
  from 1 2 show ?thesis by blast
qed

theorem unclosed_marker_grounded_empty_marker_fallback_witness:
  "CHR '']'' \<notin> set ''See [WEB_SEARCH_SUGGESTION: wind farms'' \<and>
   parse_reply ''See [WEB_SEARCH_SUGGESTION: wind farms'' =
     Grounded ''See [WEB_SEARCH_SUGGESTION: wind farms'' \<and>
   \<not> sublist marker_open ''See '' \<and> isspace (CHR '' '') \<and>
   parse_reply ''See [WEB_SEARCH_SUGGESTION:  ]'' = FallbackSuggested ''See'' []"
proof -
  have open_only: "CHR '']'' \<notin> set ''See [WEB_SEARCH_SUGGESTION: wind farms''" by simp
  with unclosed_marker_grounded_empty_marker_fallback
         [of "''See [WEB_SEARCH_SUGGESTION: wind farms''"]
  have g: "parse_reply ''See [WEB_SEARCH_SUGGESTION: wind farms'' =
             Grounded ''See [WEB_SEARCH_SUGGESTION: wind farms''" by blast
  have first: "\<not> sublist marker_open ''See ''"
    by (rule sublist_too_long) (simp add: marker_open_def)
  have ws: "\<forall>c \<in> set ''  ''. isspace c" by (simp add: isspace_def)
  have clean: "strip (str_replace (marker_open @ ''  '' @ '']'') []
                 (''See '' @ marker_open @ ''  '' @ '']'' @ [])) = ''See''"
    by (simp add: marker_open_def str_replace.simps startswith_def strip_def isspace_def)
  from unclosed_marker_grounded_empty_marker_fallback [of _ "''See ''" "''  ''" "[]"] first ws
  have "parse_reply (''See '' @ marker_open @ ''  '' @ '']'' @ []) =
          (let clean = strip (str_replace (marker_open @ ''  '' @ '']'') []
                                          (''See '' @ marker_open @ ''  '' @ '']'' @ []))
           in FallbackSuggested (if clean = [] then canned_sentence [] else clean) [])"
    by blast
  then have "parse_reply ''See [WEB_SEARCH_SUGGESTION:  ]'' = FallbackSuggested ''See'' []"
    unfolding clean Let_def by (simp add: marker_open_def)
  moreover have "isspace (CHR '' '')" by (simp add: isspace_def)
  ultimately show ?thesis using open_only g first by blast
qed

text \<open>
  The claim C9 as stated fails: a marker with an empty query gives a fallback suggestion with
  the empty query and the canned sentence, not the raw reply.
\<close>

theorem empty_marker_is_fallback:
  "parse_reply ''[WEB_SEARCH_SUGGESTION: ]'' = FallbackSuggested (canned_sentence []) [] \<and>
   parse_reply ''[WEB_SEARCH_SUGGESTION: ]'' \<noteq> Grounded ''[WEB_SEARCH_SUGGESTION: ]''"
  by (simp add: parse_reply_def match_at_def startswith_def marker_open_def group_here_def
      isspace_def strip_def str_replace.simps)

text \<open>
  C6, as the code has it. The unit itself opens the search page of a fallback suggestion in a
  new browser tab, once, after showing the cleaned text with the link; for a reply shown
  unchanged it opens nothing.
\<close>

theorem fallback_opens_search_page:
  "opened (process_chat_response st model browser_raises query) =
     (case parse_reply (gemini_chat_response model query (retrieve_context st query)) of
        FallbackSuggested clean_response_text suggested_query \<Rightarrow> [google_url suggested_query]
      | Grounded response_text \<Rightarrow> [])"
  by (simp add: process_chat_response_def show_reply_def Let_def
      split: reply.splits option.splits)

theorem fallback_opens_search_page_witness:
  "opened (process_chat_response acme_store None None ''wind turbines'') = []"
proof -
  have "CHR '']'' \<notin> set ''Chatbot is currently unavailable: Gemini AI not configured.''"
    by simp
  then have "re_search ''Chatbot is currently unavailable: Gemini AI not configured.'' = None"
    by (rule re_search_no_bracket)
  then have "parse_reply ''Chatbot is currently unavailable: Gemini AI not configured.'' =
          Grounded ''Chatbot is currently unavailable: Gemini AI not configured.''"
    by (simp add: parse_reply_def del: re_search.simps)
  with fallback_opens_search_page [of acme_store None None "''wind turbines''"]
  show ?thesis by (simp add: gemini_chat_response_def)
qed

text \<open>
  The claim C6 as stated fails: on a fallback suggestion the unit calls
  \<open>webbrowser.open_new_tab\<close> with the search address.
\<close>

theorem chat_unit_opens_browser:
  "opened (process_chat_response acme_store (Some fallback_model) None
             ''convert my cat to energy'') =
     [''https://www.google.com/search?q=cat%20energy%20global%20energy'']"
  by (simp add: process_chat_response_def show_reply_def Let_def gemini_chat_response_def
      fallback_model_def parse_reply_def match_at_def startswith_def marker_open_def
      group_here_def isspace_def strip_def str_replace.simps google_url_def quote_def
      quote_char_def percent_byte_def quote_safe_def hex_digit_def ascii_lowercase_def ascii_uppercase_def
      digits_def)

section \<open>The structured-query unit: properties\<close>

lemma upper_char_S: "upper_char c = CHR ''S'' \<longleftrightarrow> c = CHR ''S'' \<or> c = CHR ''s''"
  unfolding upper_char_def ascii_lowercase_def ascii_uppercase_def
    latin1_lowercase_def latin1_uppercase_def
  by auto
lemma upper_char_E: "upper_char c = CHR ''E'' \<longleftrightarrow> c = CHR ''E'' \<or> c = CHR ''e''"
  unfolding upper_char_def ascii_lowercase_def ascii_uppercase_def
    latin1_lowercase_def latin1_uppercase_def
  by auto
lemma upper_char_L: "upper_char c = CHR ''L'' \<longleftrightarrow> c = CHR ''L'' \<or> c = CHR ''l''"
  unfolding upper_char_def ascii_lowercase_def ascii_uppercase_def
    latin1_lowercase_def latin1_uppercase_def
  by auto
lemma upper_char_C: "upper_char c = CHR ''C'' \<longleftrightarrow> c = CHR ''C'' \<or> c = CHR ''c''"
  unfolding upper_char_def ascii_lowercase_def ascii_uppercase_def
    latin1_lowercase_def latin1_uppercase_def
  by auto
lemma upper_char_T: "upper_char c = CHR ''T'' \<longleftrightarrow> c = CHR ''T'' \<or> c = CHR ''t''"
  unfolding upper_char_def ascii_lowercase_def ascii_uppercase_def
    latin1_lowercase_def latin1_uppercase_def
  by auto

lemma same_letter_S: "same_letter c (CHR ''S'') \<longleftrightarrow> c = CHR ''S'' \<or> c = CHR ''s''"
  unfolding same_letter_def ascii_lowercase_def ascii_uppercase_def by auto
lemma same_letter_E: "same_letter c (CHR ''E'') \<longleftrightarrow> c = CHR ''E'' \<or> c = CHR ''e''"
  unfolding same_letter_def ascii_lowercase_def ascii_uppercase_def by auto
lemma same_letter_L: "same_letter c (CHR ''L'') \<longleftrightarrow> c = CHR ''L'' \<or> c = CHR ''l''"
  unfolding same_letter_def ascii_lowercase_def ascii_uppercase_def by auto
lemma same_letter_C: "same_letter c (CHR ''C'') \<longleftrightarrow> c = CHR ''C'' \<or> c = CHR ''c''"
  unfolding same_letter_def ascii_lowercase_def ascii_uppercase_def by auto
lemma same_letter_T: "same_letter c (CHR ''T'') \<longleftrightarrow> c = CHR ''T'' \<or> c = CHR ''t''"
  unfolding same_letter_def ascii_lowercase_def ascii_uppercase_def by auto

lemmas letter_simps = upper_char_S upper_char_E upper_char_L upper_char_C upper_char_T
  same_letter_S same_letter_E same_letter_L same_letter_C same_letter_T


lemma startswith_short: "length s < length p \<Longrightarrow> \<not> startswith s p"
proof
  assume a: "length s < length p" and b: "startswith s p"
  from b have "take (length p) s = p" unfolding startswith_def .
  then have "length (take (length p) s) = length p" by (rule arg_cong)
  with a show False by simp
qed

lemma startswith_upper_select:
  "startswith (upper s) ''SELECT'' \<longleftrightarrow> ci_begins_with s ''SELECT''"
proof (cases "6 \<le> length s")
  case False
  then have "length (upper s) < length ''SELECT''" by (simp add: upper_def)
  then have "\<not> startswith (upper s) ''SELECT''" by (rule startswith_short)
  with False show ?thesis by (simp add: ci_begins_with_def)
next
  case True
  then obtain c1 c2 c3 c4 c5 c6 rest where s: "s = c1 # c2 # c3 # c4 # c5 # c6 # rest"
    by (auto simp: eval_nat_numeral Suc_le_length_iff)
  show ?thesis unfolding s
    by (simp add: startswith_def ci_begins_with_def upper_def letter_simps)
qed

lemma invalid_marker_not_select: "\<not> startswith (upper invalid_marker) ''SELECT''"
  by (simp add: invalid_marker_def startswith_upper_select ci_begins_with_def letter_simps)

lemma validation_state_valid:
  "validation_state_of s = Valid \<longleftrightarrow> startswith (upper s) ''SELECT''"
proof (cases "startswith (upper s) ''SELECT''")
  case True
  with invalid_marker_not_select have "s \<noteq> invalid_marker" by auto
  with True show ?thesis by (simp add: validation_state_of_def generated_sql_of_def)
next
  case False
  then show ?thesis by (simp add: validation_state_of_def generated_sql_of_def)
qed

lemma validation_state_rejected:
  "validation_state_of s = Rejected \<longleftrightarrow> generated_sql_of s = invalid_marker"
  by (simp add: validation_state_of_def)


lemma run_query_rejected:
  assumes reply: "model (sql_prompt user_query) = Inr response_text"
    and rejected: "validation_state_of (strip response_text) = Rejected"
  shows "fst (run_query_in_thread model st user_query) = [] \<and>
         query_unit_delivery model st user_query =
           [([ConfigNormal, DeleteAll, Insert rejected_message, ConfigDisabled], None)]"
proof -
  from rejected have "generated_sql_of (strip response_text) = invalid_marker"
    by (simp only: validation_state_rejected)
  with reply have "run_query_in_thread model st user_query =
      ([], [ShowRejected], empty_frame\<lparr>var_generated_sql := Some invalid_marker\<rparr>)"
    by (simp add: run_query_in_thread_def Let_def)
  then show ?thesis by (simp add: query_unit_delivery_def run_callback_def)
qed

lemma select_candidate_valid:
  "strip '' select name, category from producers '' = ''select name, category from producers''
   \<and> generated_sql_of ''select name, category from producers'' =
       ''select name, category from producers''"
  by (simp add: strip_def isspace_def generated_sql_of_def startswith_upper_select
      ci_begins_with_def letter_simps)

lemma drop_candidate_rejected:
  "validation_state_of (strip ''DROP TABLE producers'') = Rejected"
proof -
  have "\<not> ci_begins_with (strip ''DROP TABLE producers'') ''SELECT''"
    by (simp add: strip_def isspace_def ci_begins_with_def letter_simps)
  then have "validation_state_of (strip ''DROP TABLE producers'') \<noteq> Valid"
    by (simp only: validation_state_valid startswith_upper_select not_False_eq_True)
  then show ?thesis by (cases "validation_state_of (strip ''DROP TABLE producers'')") simp_all
qed

lemma invalid_marker_rejected:
  "validation_state_of (strip ''INVALID_QUERY'') = Rejected"
proof -
  have "\<not> ci_begins_with (strip ''INVALID_QUERY'') ''SELECT''"
    by (simp add: strip_def isspace_def ci_begins_with_def letter_simps)
  then have "validation_state_of (strip ''INVALID_QUERY'') \<noteq> Valid"
    by (simp only: validation_state_valid startswith_upper_select not_False_eq_True)
  then show ?thesis by (cases "validation_state_of (strip ''INVALID_QUERY'')") simp_all
qed




text \<open>
  C2. The validation state of a model response is \<open>Valid\<close> exactly when its trimmed text
  begins with the letters of SELECT, each in either case. The marker INVALID\_QUERY and the
  text DROP TABLE producers are \<open>Rejected\<close>. A \<open>Rejected\<close> candidate is not executed: the
  unit makes no store call and the interactive context shows the rejection message.
\<close>

theorem allow_list_is_prefix_check:
  "(validation_state_of (strip response_text) = Valid \<longleftrightarrow>
      ci_begins_with (strip response_text) ''SELECT'') \<and>
   validation_state_of (strip ''INVALID_QUERY'') = Rejected \<and>
   validation_state_of (strip ''DROP TABLE producers'') = Rejected \<and>
   (model (sql_prompt user_query) = Inr response_text \<and>
    validation_state_of (strip response_text) = Rejected \<longrightarrow>
      fst (run_query_in_thread model st user_query) = [] \<and>
      query_unit_delivery model st user_query =
        [([ConfigNormal, DeleteAll, Insert rejected_message, ConfigDisabled], None)])"
proof -
  have "validation_state_of (strip response_text) = Valid \<longleftrightarrow>
      ci_begins_with (strip response_text) ''SELECT''"
    by (simp only: validation_state_valid startswith_upper_select)
  with invalid_marker_rejected drop_candidate_rejected
    run_query_rejected [of model user_query response_text st]
  show ?thesis by blast
qed

theorem allow_list_is_prefix_check_witness:
  "validation_state_of (strip ''  Select * from producers'') = Valid \<and>
   ci_begins_with (strip ''  Select * from producers'') ''SELECT'' \<and>
   drop_model (sql_prompt ''delete everything'') = Inr ''DROP TABLE producers'' \<and>
   validation_state_of (strip ''DROP TABLE producers'') = Rejected \<and>
   query_unit_delivery drop_model producers_table_store ''delete everything'' =
     [([ConfigNormal, DeleteAll, Insert rejected_message, ConfigDisabled], None)]"
proof -
  have ci: "ci_begins_with (strip ''  Select * from producers'') ''SELECT''"
    by (simp add: strip_def isspace_def ci_begins_with_def letter_simps)
  with allow_list_is_prefix_check [of "''  Select * from producers''"]
  have valid: "validation_state_of (strip ''  Select * from producers'') = Valid" by blast
  have reply: "drop_model (sql_prompt ''delete everything'') = Inr ''DROP TABLE producers''"
    by (simp add: drop_model_def)
  from allow_list_is_prefix_check
         [of "''DROP TABLE producers''" drop_model "''delete everything''"
             producers_table_store]
  have rejected: "validation_state_of (strip ''DROP TABLE producers'') = Rejected" by blast
  with allow_list_is_prefix_check
         [of "''DROP TABLE producers''" drop_model "''delete everything''"
             producers_table_store] reply
  have "query_unit_delivery drop_model producers_table_store ''delete everything'' =
     [([ConfigNormal, DeleteAll, Insert rejected_message, ConfigDisabled], None)]" by blast
  with ci valid reply rejected show ?thesis by blast
qed

lemma raised_unit_shows_no_description:
  assumes "model (sql_prompt user_query) = Inl ex"
  shows "\<exists>name. query_unit_delivery model st user_query =
           [([ConfigNormal, DeleteAll], Some name)]"
  using assms
  by (cases ex)
    (simp_all add: query_unit_delivery_def run_query_in_thread_def handle_exn_def
      run_callback_def empty_frame_def)

lemma chat_unit_renders_error_eagerly:
  "process_chat_response acme_store (Some fallback_model) (Some (OtherError ''no browser''))
     ''convert my cat to energy'' =
   [Display ''Bot'' ''I don't have that.''
      (Some ''https://www.google.com/search?q=cat%20energy%20global%20energy''),
    OpenNewTab ''https://www.google.com/search?q=cat%20energy%20global%20energy'',
    Display ''Bot'' ''An error occurred: no browser'' None, HideLoading, EnableSend]"
  by (simp add: process_chat_response_def show_reply_def Let_def gemini_chat_response_def
      fallback_model_def parse_reply_def match_at_def startswith_def marker_open_def
      group_here_def isspace_def strip_def str_replace.simps google_url_def quote_def
      quote_char_def percent_byte_def quote_safe_def hex_digit_def ascii_lowercase_def ascii_uppercase_def
      digits_def)

text \<open>
  C5 at a failing input. The model call of the structured-query unit raises: the handler
  schedules one callback, and when the interactive context runs it the name \<open>e\<close> of the
  \<open>except\<close> clause is unbound, so the callback empties the result widget and stops with a
  \<open>NameError\<close> before any error description is inserted. The same happens with \<open>se\<close> when
  the store raises.
\<close>

theorem error_callback_reads_unbound_name:
  "run_query_in_thread quota_model producers_table_store ''list all producers'' =
     ([], [ShowExecutionError], empty_frame) \<and>
   query_unit_delivery quota_model producers_table_store ''list all producers'' =
     [([ConfigNormal, DeleteAll], Some ''e'')] \<and>
   query_unit_delivery select_model locked_table_store ''list all producers'' =
     [([ConfigNormal, DeleteAll], Some ''se'')] \<and>
   widget_text ''Thinking...'' [ConfigNormal, DeleteAll] = []"
  by (simp add: query_unit_delivery_def run_query_in_thread_def handle_exn_def
      run_callback_def empty_frame_def quota_model_def select_model_def
      locked_table_store_def Let_def select_candidate_valid invalid_marker_def)

end
